theory Spec2Isabelle
  imports Complex_Main "HOL-Library.Multiset"
begin

section \<open>Blackjack counter: the decision engine of src/App.jsx\<close>

text \<open>
  The pure functions of \<^verbatim>\<open>src/App.jsx\<close> are embedded one by one, under their own names.
  A card rank is a JavaScript string, hence a \<^typ>\<open>string\<close> here: the functions accept any
  string, and \<open>RANKS\<close> lists the thirteen the card buttons can produce.
\<close>

subsection \<open>JavaScript numbers that may be NaN\<close>

text \<open>
  Totals and upcard values come out of \<^verbatim>\<open>parseInt\<close>, which yields \<^verbatim>\<open>NaN\<close> on a string
  without leading digits. \<open>Num n\<close> is the integer \<open>n\<close>; every comparison with \<open>NaN\<close>
  is false and every sum with \<open>NaN\<close> is \<open>NaN\<close>, as in the language. Integers are exact
  here; a double is exact up to \<open>2 ^ 53\<close>, far above any value a hand of real ranks reaches.
\<close>

datatype number = Num int | NaN

fun num_plus :: "number \<Rightarrow> number \<Rightarrow> number" where
  "num_plus (Num a) (Num b) = Num (a + b)"
| "num_plus _ _ = NaN"

fun num_minus :: "number \<Rightarrow> int \<Rightarrow> number" where
  "num_minus (Num a) b = Num (a - b)"
| "num_minus NaN b = NaN"

fun num_gt :: "number \<Rightarrow> int \<Rightarrow> bool" where
  "num_gt (Num a) b = (a > b)"
| "num_gt NaN b = False"

fun num_ge :: "number \<Rightarrow> int \<Rightarrow> bool" where
  "num_ge (Num a) b = (a \<ge> b)"
| "num_ge NaN b = False"

fun num_le :: "number \<Rightarrow> int \<Rightarrow> bool" where
  "num_le (Num a) b = (a \<le> b)"
| "num_le NaN b = False"

text \<open>
  \<^verbatim>\<open>parseInt(s, 10)\<close>: skip leading white space, read an optional sign, then the longest
  run of decimal digits; no digit gives \<^verbatim>\<open>NaN\<close>. (ASCII white space only.)
\<close>

definition isWhiteSpace :: "char \<Rightarrow> bool" where
  "isWhiteSpace c = (c \<in> set [CHR 0x09, CHR 0x0A, CHR 0x0B, CHR 0x0C, CHR 0x0D, CHR '' ''])"

definition isDigit :: "char \<Rightarrow> bool" where
  "isDigit c = (c \<in> set ''0123456789'')"

definition digitValue :: "char \<Rightarrow> int" where
  "digitValue c = of_char c - 48"

definition parseInt10 :: "string \<Rightarrow> number" where
  "parseInt10 s =
     (let t = dropWhile isWhiteSpace s;
          neg = (case t of [] \<Rightarrow> False | c # _ \<Rightarrow> c = CHR ''-'');
          u = (case t of [] \<Rightarrow> [] | c # r \<Rightarrow> if c = CHR ''-'' \<or> c = CHR ''+'' then r else t);
          z = takeWhile isDigit u
      in if z = [] then NaN
         else Num ((if neg then - 1 else 1) * foldl (\<lambda>n c. 10 * n + digitValue c) 0 z))"

subsection \<open>Rank and value utilities\<close>

definition RANKS :: "string list" where
  "RANKS = [''A''] @ [''2'', ''3'', ''4'', ''5'', ''6''] @ [''7'', ''8'', ''9'']
             @ [''10'', ''J'', ''Q'', ''K'']"

definition hiLoValue :: "string \<Rightarrow> int" where
  "hiLoValue rank =
     (if rank \<in> set [''2'', ''3'', ''4'', ''5'', ''6''] then 1
      else if rank \<in> set [''7'', ''8'', ''9''] then 0
      else - 1)"

definition isTenValue :: "string \<Rightarrow> bool" where
  "isTenValue rank = (rank = ''10'' \<or> rank = ''J'' \<or> rank = ''Q'' \<or> rank = ''K'')"

definition toDealerUpValue :: "string \<Rightarrow> number" where
  "toDealerUpValue rank =
     (if rank = ''A'' then Num 11
      else if isTenValue rank then Num 10
      else parseInt10 rank)"

definition clamp :: "rat \<Rightarrow> rat \<Rightarrow> rat \<Rightarrow> rat" where
  "clamp n lo hi = max lo (min hi n)"

subsection \<open>Hand evaluation\<close>

record hand_value =
  total :: number
  isSoft :: bool

text \<open>One turn of the \<^verbatim>\<open>for\<close> loop of \<^verbatim>\<open>bestTotal\<close>, on the pair (total, aces).\<close>

definition addCard :: "number \<times> nat \<Rightarrow> string \<Rightarrow> number \<times> nat" where
  "addCard s r =
     (case s of (t, aces) \<Rightarrow>
        if r = ''A'' then (num_plus t (Num 11), aces + 1)
        else if isTenValue r then (num_plus t (Num 10), aces)
        else (num_plus t (parseInt10 r), aces))"

text \<open>The \<^verbatim>\<open>while (total > 21 && aces > 0)\<close> loop.\<close>

function demote :: "number \<Rightarrow> nat \<Rightarrow> number \<times> nat" where
  "demote t aces =
     (if num_gt t 21 \<and> aces > 0 then demote (num_minus t 10) (aces - 1) else (t, aces))"
  by pat_completeness auto
termination
  by (relation "measure (\<lambda>(t, aces). aces)") auto

definition bestTotal :: "string list \<Rightarrow> hand_value" where
  "bestTotal ranks =
     (case foldl addCard (Num 0, 0) ranks of (t0, aces0) \<Rightarrow>
      case demote t0 aces0 of (t, aces) \<Rightarrow>
        let aceCount = length (filter (\<lambda>r. r = ''A'') ranks)
        in \<lparr> total = t, isSoft = (aceCount > 0 \<and> num_le t 21 \<and> aceCount > aces) \<rparr>)"

definition isPair :: "string list \<Rightarrow> bool" where
  "isPair hand =
     (case hand of
        [a, b] \<Rightarrow> if isTenValue a \<and> isTenValue b then True else a = b
      | _ \<Rightarrow> False)"

text \<open>
  \<^verbatim>\<open>pairKey\<close> destructures the first two cards; a missing card is \<^verbatim>\<open>undefined\<close>, which
  is not ten-valued, and \<open>None\<close> is the \<^verbatim>\<open>undefined\<close> result on the empty hand.
\<close>

fun pairKey :: "string list \<Rightarrow> string option" where
  "pairKey [] = None"
| "pairKey [a] = Some a"
| "pairKey (a # b # _) = Some (if isTenValue a \<and> isTenValue b then ''10'' else a)"

subsection \<open>Baseline strategy\<close>

datatype action = Stand | Hit | Double | Split | Surrender

record opts =
  canSplit :: bool
  canDouble :: bool
  canSurrender :: bool

definition surrenderRule :: "hand_value \<Rightarrow> number \<Rightarrow> bool" where
  "surrenderRule v up =
     ((\<not> isSoft v \<and> total v = Num 16 \<and> (up = Num 9 \<or> up = Num 10 \<or> up = Num 11))
      \<or> (\<not> isSoft v \<and> total v = Num 15 \<and> up = Num 10))"

definition pairRule :: "string option \<Rightarrow> number \<Rightarrow> opts \<Rightarrow> action option" where
  "pairRule pk up flags =
     (if pk = Some ''A'' then Some Split
      else if pk = Some ''10'' then Some Stand
      else if pk = Some ''9'' then
        (if up \<in> set [Num 2, Num 3, Num 4, Num 5, Num 6, Num 8, Num 9] then Some Split
         else Some Stand)
      else if pk = Some ''8'' then Some Split
      else if pk = Some ''7'' then
        (if num_ge up 2 \<and> num_le up 7 then Some Split else Some Hit)
      else if pk = Some ''6'' then
        (if num_ge up 2 \<and> num_le up 6 then Some Split else Some Hit)
      else if pk = Some ''5'' then
        (if canDouble flags \<and> num_ge up 2 \<and> num_le up 9 then Some Double else Some Hit)
      else if pk = Some ''4'' then
        (if up = Num 5 \<or> up = Num 6 then Some Split else Some Hit)
      else if pk = Some ''3'' \<or> pk = Some ''2'' then
        (if num_ge up 2 \<and> num_le up 7 then Some Split else Some Hit)
      else None)"

definition softRule :: "number \<Rightarrow> number \<Rightarrow> opts \<Rightarrow> action" where
  "softRule t up flags =
     (if num_ge t 20 then Stand
      else if t = Num 19 then
        (if canDouble flags \<and> up = Num 6 then Double else Stand)
      else if t = Num 18 then
        (if canDouble flags \<and> num_ge up 3 \<and> num_le up 6 then Double
         else if up = Num 2 \<or> up = Num 7 \<or> up = Num 8 then Stand
         else Hit)
      else if t = Num 17 then
        (if canDouble flags \<and> num_ge up 3 \<and> num_le up 6 then Double else Hit)
      else if t = Num 16 \<or> t = Num 15 then
        (if canDouble flags \<and> num_ge up 4 \<and> num_le up 6 then Double else Hit)
      else if t = Num 14 \<or> t = Num 13 then
        (if canDouble flags \<and> (up = Num 5 \<or> up = Num 6) then Double else Hit)
      else Hit)"

definition hardRule :: "number \<Rightarrow> number \<Rightarrow> opts \<Rightarrow> action" where
  "hardRule t up flags =
     (if num_ge t 17 then Stand
      else if num_le t 8 then Hit
      else if t = Num 9 then
        (if canDouble flags \<and> num_ge up 3 \<and> num_le up 6 then Double else Hit)
      else if t = Num 10 then
        (if canDouble flags \<and> num_ge up 2 \<and> num_le up 9 then Double else Hit)
      else if t = Num 11 then
        (if canDouble flags \<and> num_ge up 2 \<and> num_le up 10 then Double
         else if up = Num 11 then Hit else Double)
      else if t = Num 12 then
        (if num_ge up 4 \<and> num_le up 6 then Stand else Hit)
      else if num_ge t 13 \<and> num_le t 16 then
        (if num_ge up 2 \<and> num_le up 6 then Stand else Hit)
      else Hit)"

text \<open>
  \<^verbatim>\<open>baselineAction\<close> is one chain of early returns; its four blocks (late surrender, pairs,
  soft totals, hard totals) are the four definitions above, taken in the source's order.
  A pair key that none of the pair branches names leaves the pair block without a return.
\<close>

definition baselineAction :: "string list \<Rightarrow> string \<Rightarrow> opts \<Rightarrow> action" where
  "baselineAction hand dealerUp flags =
     (let up = toDealerUpValue dealerUp;
          v = bestTotal hand
      in if canSurrender flags \<and> length hand = 2 \<and> surrenderRule v up then Surrender
         else case (if canSplit flags \<and> isPair hand then pairRule (pairKey hand) up flags
                    else None) of
                Some a \<Rightarrow> a
              | None \<Rightarrow> if isSoft v then softRule (total v) up flags
                        else hardRule (total v) up flags)"

subsection \<open>Key deviations\<close>

text \<open>
  The notes are JavaScript strings holding a rightwards arrow (U+2192) and a
  greater-than-or-equal sign (U+2265); here they are the bytes of their UTF-8 encoding.
\<close>

definition arrow :: string where
  "arrow = [CHR 0xE2, CHR 0x86, CHR 0x92]"

definition geq :: string where
  "geq = [CHR 0xE2, CHR 0x89, CHR 0xA5]"

record deviation =
  action :: action
  "notes" :: "string list"

definition applyDeviations :: "action \<Rightarrow> string list \<Rightarrow> string \<Rightarrow> int \<Rightarrow> opts \<Rightarrow> deviation" where
  "applyDeviations base hand dealerUp tc flags =
     (let up = toDealerUpValue dealerUp;
          v = bestTotal hand
      in if \<not> isSoft v \<and> total v = Num 16 \<and> up = Num 10 \<and> tc \<ge> 0 \<and> base \<noteq> Stand then
           \<lparr> action = Stand,
             notes = [''Deviation: 16 vs 10 '' @ arrow @ '' Stand at TC '' @ geq @ '' 0''] \<rparr>
         else if \<not> isSoft v \<and> total v = Num 15 \<and> up = Num 10 \<and> tc \<ge> 4 \<and> base \<noteq> Stand then
           \<lparr> action = Stand,
             notes = [''Deviation: 15 vs 10 '' @ arrow @ '' Stand at TC '' @ geq @ '' +4''] \<rparr>
         else if \<not> isSoft v \<and> total v = Num 16 \<and> up = Num 9 \<and> tc \<ge> 5 \<and> base \<noteq> Stand then
           \<lparr> action = Stand,
             notes = [''Deviation: 16 vs 9 '' @ arrow @ '' Stand at TC '' @ geq @ '' +5''] \<rparr>
         else if \<not> isSoft v \<and> total v = Num 16 \<and> up = Num 11 \<and> tc \<ge> 3 \<and> base \<noteq> Stand then
           \<lparr> action = Stand,
             notes = [''Deviation: 16 vs A '' @ arrow @ '' Stand at TC '' @ geq @ '' +3''] \<rparr>
         else if \<not> isSoft v \<and> total v = Num 12 \<and> up = Num 3 \<and> tc \<ge> 1 \<and> base \<noteq> Stand then
           \<lparr> action = Stand,
             notes = [''Deviation: 12 vs 3 '' @ arrow @ '' Stand at TC '' @ geq @ '' +1''] \<rparr>
         else if \<not> isSoft v \<and> total v = Num 12 \<and> up = Num 2 \<and> tc \<ge> 3 \<and> base \<noteq> Stand then
           \<lparr> action = Stand,
             notes = [''Deviation: 12 vs 2 '' @ arrow @ '' Stand at TC '' @ geq @ '' +3''] \<rparr>
         else if canDouble flags \<and> \<not> isSoft v \<and> total v = Num 10 \<and> up = Num 10 \<and> tc \<ge> 4
                 \<and> base \<noteq> Double then
           \<lparr> action = Double,
             notes = [''Deviation: 10 vs 10 '' @ arrow @ '' Double at TC '' @ geq @ '' +4''] \<rparr>
         else if canDouble flags \<and> \<not> isSoft v \<and> total v = Num 10 \<and> up = Num 11 \<and> tc \<ge> 3
                 \<and> base \<noteq> Double then
           \<lparr> action = Double,
             notes = [''Deviation: 10 vs A '' @ arrow @ '' Double at TC '' @ geq @ '' +3''] \<rparr>
         else if canDouble flags \<and> \<not> isSoft v \<and> total v = Num 11 \<and> up = Num 11 \<and> tc \<ge> 0
                 \<and> base \<noteq> Double then
           \<lparr> action = Double,
             notes = [''Deviation: 11 vs A '' @ arrow @ '' Double at TC '' @ geq @ '' 0''] \<rparr>
         else \<lparr> action = base, notes = [] \<rparr>)"

text \<open>
  The deviation resolver as the specification words it, for comparison with the chain of
  \<^verbatim>\<open>if\<close>s above: a fixed, ordered table of nine index plays, each a hard total, a dealer
  upcard value, a count threshold and an override action (three of them asking for
  \<open>canDouble\<close>); a play fires when the count meets or exceeds its threshold and the
  baseline action differs from its override; the first play that fires decides, with its
  note as the only note; when none fires the baseline action stands and there is no note.
\<close>

record index_play =
  play_total :: int
  play_up :: int
  play_tc :: int
  play_needs_double :: bool
  play_action :: action
  play_note :: string

definition index_plays :: "index_play list" where
  "index_plays =
     [\<lparr> play_total = 16, play_up = 10, play_tc = 0, play_needs_double = False,
        play_action = Stand,
        play_note = ''Deviation: 16 vs 10 '' @ arrow @ '' Stand at TC '' @ geq @ '' 0'' \<rparr>,
      \<lparr> play_total = 15, play_up = 10, play_tc = 4, play_needs_double = False,
        play_action = Stand,
        play_note = ''Deviation: 15 vs 10 '' @ arrow @ '' Stand at TC '' @ geq @ '' +4'' \<rparr>,
      \<lparr> play_total = 16, play_up = 9, play_tc = 5, play_needs_double = False,
        play_action = Stand,
        play_note = ''Deviation: 16 vs 9 '' @ arrow @ '' Stand at TC '' @ geq @ '' +5'' \<rparr>,
      \<lparr> play_total = 16, play_up = 11, play_tc = 3, play_needs_double = False,
        play_action = Stand,
        play_note = ''Deviation: 16 vs A '' @ arrow @ '' Stand at TC '' @ geq @ '' +3'' \<rparr>,
      \<lparr> play_total = 12, play_up = 3, play_tc = 1, play_needs_double = False,
        play_action = Stand,
        play_note = ''Deviation: 12 vs 3 '' @ arrow @ '' Stand at TC '' @ geq @ '' +1'' \<rparr>,
      \<lparr> play_total = 12, play_up = 2, play_tc = 3, play_needs_double = False,
        play_action = Stand,
        play_note = ''Deviation: 12 vs 2 '' @ arrow @ '' Stand at TC '' @ geq @ '' +3'' \<rparr>,
      \<lparr> play_total = 10, play_up = 10, play_tc = 4, play_needs_double = True,
        play_action = Double,
        play_note = ''Deviation: 10 vs 10 '' @ arrow @ '' Double at TC '' @ geq @ '' +4'' \<rparr>,
      \<lparr> play_total = 10, play_up = 11, play_tc = 3, play_needs_double = True,
        play_action = Double,
        play_note = ''Deviation: 10 vs A '' @ arrow @ '' Double at TC '' @ geq @ '' +3'' \<rparr>,
      \<lparr> play_total = 11, play_up = 11, play_tc = 0, play_needs_double = True,
        play_action = Double,
        play_note = ''Deviation: 11 vs A '' @ arrow @ '' Double at TC '' @ geq @ '' 0'' \<rparr>]"

definition play_fires :: "action \<Rightarrow> hand_value \<Rightarrow> number \<Rightarrow> int \<Rightarrow> opts \<Rightarrow> index_play \<Rightarrow> bool" where
  "play_fires base v up tc flags p =
     ((if play_needs_double p then canDouble flags else True)
      \<and> \<not> isSoft v \<and> total v = Num (play_total p) \<and> up = Num (play_up p)
      \<and> tc \<ge> play_tc p \<and> base \<noteq> play_action p)"

definition resolveDeviation :: "action \<Rightarrow> string list \<Rightarrow> string \<Rightarrow> int \<Rightarrow> opts \<Rightarrow> deviation" where
  "resolveDeviation base hand dealerUp tc flags =
     (case find (play_fires base (bestTotal hand) (toDealerUpValue dealerUp) tc flags)
             index_plays of
        None \<Rightarrow> \<lparr> action = base, notes = [] \<rparr>
      | Some p \<Rightarrow> \<lparr> action = play_action p, notes = [play_note p] \<rparr>)"

subsection \<open>Doubles\<close>

text \<open>
  The numbers of the count estimator are IEEE 754 doubles. A finite double is a rational
  number, and every arithmetic operation of the language returns the double nearest to the
  exact result, a tie going to the even significand: \<open>round_double\<close>, with 53 bits of
  significand. The exponent range is not modelled: a magnitude from \<open>2 ^ 1024\<close> on is an
  infinity in the language, and one below \<open>2 ^ - 1022\<close> has fewer bits. The estimator
  meets neither as long as its integers stay below \<open>2 ^ 53\<close>: it divides such an integer by
  52, or by a \<open>decksRemaining\<close> of at least 0.25.
\<close>

fun bitLength :: "nat \<Rightarrow> nat" where
  "bitLength n = (if n = 0 then 0 else Suc (bitLength (n div 2)))"

definition pow2 :: "int \<Rightarrow> rat" where
  "pow2 e = (if e \<ge> 0 then 2 ^ nat e else 1 / 2 ^ nat (- e))"

text \<open>The binary exponent of a positive rational: \<open>pow2 (exponent a) \<le> a < pow2 (exponent a + 1)\<close>.\<close>

definition exponent :: "rat \<Rightarrow> int" where
  "exponent a =
     (let k = (if a \<ge> 1 then int (bitLength (nat \<lfloor>a\<rfloor>)) - 1
               else - int (bitLength (nat \<lfloor>1 / a\<rfloor>)))
      in if pow2 (k + 1) \<le> a then k + 1 else k)"

definition roundHalfEven :: "rat \<Rightarrow> int" where
  "roundHalfEven m =
     (let f = \<lfloor>m\<rfloor>; d = m - of_int f
      in if d < 1 / 2 then f else if d > 1 / 2 then f + 1
         else if even f then f else f + 1)"

definition round_double :: "rat \<Rightarrow> rat" where
  "round_double x =
     (if x = 0 then 0
      else let a = \<bar>x\<bar>; e = exponent a - 52
           in sgn x * of_int (roundHalfEven (a / pow2 e)) * pow2 e)"

text \<open>The operator \<^verbatim>\<open>/\<close> on two doubles, the divisor not zero.\<close>

definition fdiv :: "rat \<Rightarrow> rat \<Rightarrow> rat" where
  "fdiv a b = round_double (a / b)"

subsection \<open>Count estimator\<close>

text \<open>
  The three memoised values of the \<^verbatim>\<open>App\<close> component, as functions of what they depend
  on. The counts of cards are integers, exact in a double; the two divisions are divisions
  of doubles. A division by a zero \<open>decksRemaining\<close> gives an infinity or \<^verbatim>\<open>NaN\<close> in
  the source, and \<open>None\<close> here.
\<close>

definition totalCards :: "int \<Rightarrow> int" where
  "totalCards decks = decks * 52"

definition runningCount :: "string list \<Rightarrow> int" where
  "runningCount seen = foldl (\<lambda>s r. s + hiLoValue r) 0 seen"

definition decksRemaining :: "int \<Rightarrow> string list \<Rightarrow> rat" where
  "decksRemaining decks seen =
     (let remainingCards = totalCards decks - int (length seen);
          est = fdiv (of_int remainingCards) 52
      in clamp est (1 / 4) (of_int decks))"

definition trueCount :: "int \<Rightarrow> rat \<Rightarrow> int option" where
  "trueCount rc dr =
     (if dr = 0 then None
      else let tc = fdiv (of_int rc) dr
           in Some (if tc < 0 then \<lceil>tc\<rceil> else \<lfloor>tc\<rfloor>))"

section \<open>Properties\<close>

subsection \<open>Evaluating the parser and the loops\<close>

lemmas parse_defs = parseInt10_def isWhiteSpace_def isDigit_def digitValue_def

lemma num_plus_swap: "num_plus (num_plus t a) b = num_plus (num_plus t b) a"
  by (cases t; cases a; cases b) simp_all

lemma addCard_swap: "addCard (addCard s x) y = addCard (addCard s y) x"
  by (cases s) (simp add: addCard_def num_plus_swap)

lemma forLoop_mset:
  assumes "mset xs = mset ys"
  shows "foldl addCard s xs = foldl addCard s ys"
proof -
  have "fold (\<lambda>x s. addCard s x) xs = fold (\<lambda>x s. addCard s x) ys"
    by (rule fold_multiset_equiv) (auto simp: fun_eq_iff addCard_swap assms)
  then show ?thesis by (simp add: foldl_conv_fold)
qed

lemma aceCount_mset:
  assumes "mset xs = mset ys"
  shows "length (filter P xs) = length (filter P ys)"
proof -
  have "mset (filter P xs) = mset (filter P ys)" using assms by simp
  then show ?thesis by (rule mset_eq_length)
qed

lemma forLoop_aces: "snd (foldl addCard (t, a) xs) = a + length (filter (\<lambda>r. r = ''A'') xs)"
  by (induction xs arbitrary: t a) (simp_all add: addCard_def)

subsection \<open>The hand evaluator\<close>

text \<open>
  C10. The evaluator does not fail on the hand of no cards: it returns total 0 and
  \<open>isSoft = false\<close>.
\<close>

theorem bestTotal_empty: "bestTotal [] = \<lparr> total = Num 0, isSoft = False \<rparr>"
  by (simp add: bestTotal_def)

text \<open>
  C9. Two hands of ranks of the alphabet that are permutations of each other evaluate to
  the same total and the same soft flag. (The hypothesis on the alphabet keeps the
  statement to hands whose sums are exact in a double.)
\<close>

theorem bestTotal_permutation:
  assumes "set xs \<subseteq> set RANKS" and "mset xs = mset ys"
  shows "bestTotal xs = bestTotal ys"
  unfolding bestTotal_def
  by (simp only: forLoop_mset [OF assms(2)] aceCount_mset [OF assms(2)])

theorem bestTotal_permutation_witness:
  "set [''A'', ''6'', ''K''] \<subseteq> set RANKS
   \<and> mset [''A'', ''6'', ''K''] = mset [''K'', ''A'', ''6'']
   \<and> bestTotal [''A'', ''6'', ''K''] = bestTotal [''K'', ''A'', ''6'']"
proof -
  have a: "set [''A'', ''6'', ''K''] \<subseteq> set RANKS" by (simp add: RANKS_def)
  have b: "mset [''A'', ''6'', ''K''] = mset [''K'', ''A'', ''6'']" by (simp add: add.commute)
  from a b bestTotal_permutation [OF a b] show ?thesis by blast
qed

text \<open>
  C1. The claim wants \<open>isSoft\<close> to hold exactly when an ace still counts 11 and the total
  is at most 21, so that ace and six is a soft 17. The code compares the number of aces of
  the hand with the number of aces left undemoted by the loop, \<^verbatim>\<open>aceCount > aces\<close>, which
  holds when some ace WAS demoted: ace and six comes out as a hard 17.
\<close>

theorem bestTotal_ace_six: "bestTotal [''A'', ''6''] = \<lparr> total = Num 17, isSoft = False \<rparr>"
  by (simp add: bestTotal_def addCard_def isTenValue_def parse_defs)

text \<open>
  The same holds of every hand the loop leaves alone: when the first sum does not exceed
  21, no ace is demoted and the hand is reported hard, aces or not.
\<close>

lemma bestTotal_undemoted_is_hard:
  assumes "\<not> num_gt (fst (foldl addCard (Num 0, 0) hand)) 21"
  shows "\<not> isSoft (bestTotal hand)"
proof -
  obtain t0 a0 where f: "foldl addCard (Num 0, 0) hand = (t0, a0)" by fastforce
  have a0: "a0 = length (filter (\<lambda>r. r = ''A'') hand)"
    using forLoop_aces [of "Num 0" 0 hand] f by simp
  from assms f have "demote t0 a0 = (t0, a0)" by simp
  with f a0 show ?thesis by (simp add: bestTotal_def)
qed

subsection \<open>The counting weight\<close>

text \<open>
  C4, as the code has it. \<open>hiLoValue\<close> raises nothing: a rank outside the alphabet takes
  the last branch and weighs -1, like the tens and the ace. On the thirteen ranks, in the
  order of \<open>RANKS\<close>, the weights are -1 for the ace, +1 for 2 to 6, 0 for 7 to 9 and -1
  for 10, J, Q, K.
\<close>

theorem hiLoValue_total:
  "(r \<notin> set RANKS \<longrightarrow> hiLoValue r = - 1)
   \<and> map hiLoValue RANKS = [- 1, 1, 1, 1, 1, 1, 0, 0, 0, - 1, - 1, - 1, - 1]"
  by (auto simp: hiLoValue_def RANKS_def)

theorem hiLoValue_total_witness: "''X'' \<notin> set RANKS \<and> hiLoValue ''X'' = - 1"
  using hiLoValue_total [of "''X''"] by (simp add: RANKS_def)

text \<open>
  C4, as the claim has it, fails: the string \<open>Joker\<close> is no rank, and it is given the weight
  -1 instead of an error.
\<close>

theorem hiLoValue_coerces: "''Joker'' \<notin> set RANKS \<and> hiLoValue ''Joker'' = - 1"
  by (simp add: RANKS_def hiLoValue_def)

subsection \<open>The baseline resolver\<close>

lemma pairRule_not_Surrender: "pairRule pk up flags \<noteq> Some Surrender"
  by (simp add: pairRule_def)

lemma softRule_not_Surrender: "softRule t up flags \<noteq> Surrender"
  by (simp add: softRule_def)

lemma hardRule_not_Surrender: "hardRule t up flags \<noteq> Surrender"
  by (simp add: hardRule_def)

text \<open>
  Surrender comes out of the first block only, and that block is tried before the pairs:
  the resolver surrenders exactly when the flag is set, the hand has two cards, and the
  evaluator reports a total of 16 that is not soft against 9, 10 or ace, or a total of 15
  that is not soft against 10.
\<close>

lemma baselineAction_Surrender_iff:
  "baselineAction hand dealerUp flags = Surrender \<longleftrightarrow>
     canSurrender flags \<and> length hand = 2
     \<and> surrenderRule (bestTotal hand) (toDealerUpValue dealerUp)"
  using pairRule_not_Surrender softRule_not_Surrender hardRule_not_Surrender
  by (auto simp: baselineAction_def Let_def split: option.splits)

lemma baselineAction_16_vs_10:
  "baselineAction [''10'', ''6''] ''10''
     \<lparr> canSplit = True, canDouble = True, canSurrender = True \<rparr> = Surrender
   \<and> baselineAction [''8'', ''8''] ''10''
     \<lparr> canSplit = True, canDouble = True, canSurrender = True \<rparr> = Surrender"
  by (simp add: baselineAction_def surrenderRule_def toDealerUpValue_def
        bestTotal_def addCard_def isTenValue_def parse_defs)

text \<open>
  C7. The claim has the resolver surrender a two-card hand exactly when it is a hard 16
  against 9, 10 or ace or a hard 15 against 10. Ace and five is a soft 16, an ace still
  counting 11; the evaluator reports it as a hard 16 (the defect of C1), and the resolver
  surrenders it against a ten.
\<close>

theorem baselineAction_soft_16_surrenders:
  "bestTotal [''A'', ''5''] = \<lparr> total = Num 16, isSoft = False \<rparr>
   \<and> baselineAction [''A'', ''5''] ''10''
        \<lparr> canSplit = True, canDouble = True, canSurrender = True \<rparr> = Surrender"
  by (simp add: baselineAction_def surrenderRule_def toDealerUpValue_def
        bestTotal_def addCard_def isTenValue_def parse_defs)

lemma pairRule_Double: "pairRule pk up flags = Some Double \<Longrightarrow> canDouble flags"
  by (simp add: pairRule_def split: if_splits)

lemma softRule_Double: "softRule t up flags = Double \<Longrightarrow> canDouble flags"
  by (simp add: softRule_def split: if_splits)

lemma hardRule_Double:
  "hardRule t up flags = Double \<Longrightarrow> canDouble flags \<or> (t = Num 11 \<and> up \<noteq> Num 11)"
  by (simp add: hardRule_def split: if_splits)

text \<open>
  Every branch that returns Double asks for \<open>canDouble\<close>, but for the last return of the
  hard 11 branch, \<^verbatim>\<open>return up === 11 ? "Hit" : "Double"\<close>: without the flag, Double can
  only come from a total of 11 that is not soft against an upcard other than the ace.
\<close>

lemma baselineAction_Double_unguarded:
  assumes "baselineAction hand dealerUp flags = Double" and "\<not> canDouble flags"
  shows "\<not> isSoft (bestTotal hand) \<and> total (bestTotal hand) = Num 11
         \<and> toDealerUpValue dealerUp \<noteq> Num 11"
  using assms pairRule_Double softRule_Double hardRule_Double
  by (fastforce simp: baselineAction_def Let_def split: option.splits if_splits)

text \<open>
  C2. The claim has every Double conditioned on \<open>canDouble\<close>, and a hard 11 without the
  flag never doubled. Two, four and five against a six, with the flags the application
  passes for a hand of three cards, is a hard 11 and the resolver returns Double.
\<close>

theorem baselineAction_hard_11_no_double:
  "baselineAction [''2'', ''4'', ''5''] ''6''
     \<lparr> canSplit = True, canDouble = False, canSurrender = False \<rparr> = Double"
  by (simp add: baselineAction_def isPair_def hardRule_def toDealerUpValue_def
        bestTotal_def addCard_def isTenValue_def parse_defs)

subsection \<open>The deviation resolver\<close>

text \<open>
  C8. The deviation resolver is the first-match evaluation of the ordered table of nine
  index plays: a play fires only when the count meets or exceeds its threshold and the
  baseline action differs from its override; the first play that fires returns its
  override with its note as the only note; when none fires the baseline action is
  returned with no note.
\<close>

theorem applyDeviations_first_match:
  "applyDeviations base hand dealerUp tc flags = resolveDeviation base hand dealerUp tc flags"
  unfolding applyDeviations_def resolveDeviation_def index_plays_def play_fires_def Let_def
  by simp

theorem applyDeviations_first_match_witness:
  "applyDeviations Hit [''6'', ''5''] ''A'' 0
     \<lparr> canSplit = True, canDouble = True, canSurrender = True \<rparr>
   = \<lparr> action = Double,
       notes = [''Deviation: 11 vs A '' @ arrow @ '' Double at TC '' @ geq @ '' 0''] \<rparr>"
  using applyDeviations_first_match [of Hit "[''6'', ''5'']" "''A''" 0
     "\<lparr> canSplit = True, canDouble = True, canSurrender = True \<rparr>"]
  by (simp add: resolveDeviation_def index_plays_def play_fires_def toDealerUpValue_def
        bestTotal_def addCard_def isTenValue_def parse_defs)

text \<open>
  C3, as the code has it. Every index play asks for a hand that the evaluator does not
  report soft: when \<open>isSoft\<close> is set, the action returned is the baseline action and
  there is no note. Nothing in the resolver looks at pairs.
\<close>

theorem applyDeviations_soft_unchanged:
  assumes "isSoft (bestTotal hand)"
  shows "applyDeviations base hand dealerUp tc flags = \<lparr> action = base, notes = [] \<rparr>"
  using assms by (simp add: applyDeviations_def Let_def)

theorem applyDeviations_soft_unchanged_witness:
  "isSoft (bestTotal [''A'', ''A''])
   \<and> applyDeviations Split [''A'', ''A''] ''3'' 5
        \<lparr> canSplit = True, canDouble = True, canSurrender = True \<rparr>
      = \<lparr> action = Split, notes = [] \<rparr>"
proof -
  have s: "isSoft (bestTotal [''A'', ''A''])"
    by (simp add: bestTotal_def addCard_def)
  from s applyDeviations_soft_unchanged [OF s] show ?thesis by simp
qed

text \<open>
  C3, as the claim has it, fails on pairs: a pair of sixes against a three is split by the
  baseline, and at a true count of +1 the play "12 vs 3" turns the split into Stand.
\<close>

theorem applyDeviations_pair_deviates:
  "isPair [''6'', ''6'']
   \<and> baselineAction [''6'', ''6''] ''3''
        \<lparr> canSplit = True, canDouble = True, canSurrender = True \<rparr> = Split
   \<and> applyDeviations Split [''6'', ''6''] ''3'' 1
        \<lparr> canSplit = True, canDouble = True, canSurrender = True \<rparr>
      = \<lparr> action = Stand,
          notes = [''Deviation: 12 vs 3 '' @ arrow @ '' Stand at TC '' @ geq @ '' +1''] \<rparr>"
  by (simp add: applyDeviations_def baselineAction_def surrenderRule_def isPair_def
        pairRule_def toDealerUpValue_def bestTotal_def addCard_def isTenValue_def parse_defs)

subsection \<open>Rounding to a double\<close>

declare bitLength.simps [simp del]

lemma bitLength_bounds: "0 < n \<Longrightarrow> 2 ^ (bitLength n - 1) \<le> n \<and> n < 2 ^ bitLength n"
proof (induction n rule: bitLength.induct)
  case (1 n)
  show ?case
  proof (cases "n div 2 = 0")
    case True
    with "1.prems" have "n = 1" by presburger
    then show ?thesis by (simp add: bitLength.simps [of "Suc 0"] bitLength.simps [of 0])
  next
    case False
    then have pos: "0 < n div 2" by simp
    from "1.prems" have n0: "n \<noteq> 0" by simp
    from "1.IH" [OF n0 pos]
    have lo: "2 ^ (bitLength (n div 2) - 1) \<le> n div 2" and hi: "n div 2 < 2 ^ bitLength (n div 2)"
      by simp_all
    have b: "bitLength n = Suc (bitLength (n div 2))" using n0 by (simp add: bitLength.simps [of n])
    have bp: "0 < bitLength (n div 2)" using pos by (simp add: bitLength.simps [of "n div 2"])
    then obtain j where j: "bitLength (n div 2) = Suc j" by (cases "bitLength (n div 2)") simp_all
    from lo j have "2 * 2 ^ j \<le> 2 * (n div 2)" by simp
    also have "\<dots> \<le> n" by presburger
    finally have l: "2 ^ (bitLength n - 1) \<le> n" by (simp add: b j)
    from hi have "Suc (n div 2) \<le> 2 ^ bitLength (n div 2)" by simp
    then have "2 * Suc (n div 2) \<le> 2 * 2 ^ bitLength (n div 2)" by simp
    moreover have "n < 2 * Suc (n div 2)" by presburger
    ultimately have "n < 2 ^ bitLength n" by (simp add: b)
    with l show ?thesis by simp
  qed
qed

lemma pow2_pos: "0 < pow2 e"
  by (simp add: pow2_def)

lemma pow2_of_nat: "pow2 (int n) = 2 ^ n"
  by (simp add: pow2_def)

lemma pow2_neg_nat: "pow2 (- int n) = 1 / 2 ^ n"
  by (cases n) (simp_all add: pow2_def nat_add_distrib)

lemma pow2_Suc: "pow2 (e + 1) = 2 * pow2 e"
proof (cases e rule: int_cases)
  case (nonneg n)
  then show ?thesis by (simp add: pow2_def nat_add_distrib)
next
  case (neg n)
  then have e1: "e + 1 = - int n" by simp
  have "pow2 (e + 1) = 1 / 2 ^ n" by (simp only: e1 pow2_neg_nat)
  moreover have "pow2 e = 1 / 2 ^ Suc n" by (simp only: neg pow2_neg_nat)
  ultimately show ?thesis by simp
qed

lemma pow_le_rat: "2 ^ m \<le> (n :: nat) \<Longrightarrow> (2 :: rat) ^ m \<le> of_nat n"
proof -
  assume "2 ^ m \<le> n"
  then have "(of_nat (2 ^ m) :: rat) \<le> of_nat n" by (simp only: of_nat_le_iff)
  then show ?thesis by simp
qed

lemma lt_pow_rat: "(n :: nat) < 2 ^ m \<Longrightarrow> (of_nat n :: rat) + 1 \<le> 2 ^ m"
proof -
  assume "n < 2 ^ m"
  then have "Suc n \<le> 2 ^ m" by simp
  then have "(of_nat (Suc n) :: rat) \<le> of_nat (2 ^ m)" by (simp only: of_nat_le_iff)
  then show ?thesis by simp
qed

lemma exponent_bounds:
  assumes "0 < a"
  shows "pow2 (exponent a) \<le> a \<and> a < pow2 (exponent a + 1)"
proof (cases "1 \<le> a")
  case True
  define n where "n = nat \<lfloor>a\<rfloor>"
  define k where "k = int (bitLength n) - 1"
  have fl: "1 \<le> \<lfloor>a\<rfloor>" using True by simp
  then have npos: "0 < n" by (simp add: n_def)
  have nf: "(of_nat n :: rat) = of_int \<lfloor>a\<rfloor>" using fl by (simp add: n_def)
  have na: "of_nat n \<le> a" and an: "a < of_nat n + 1"
    unfolding nf by linarith+
  from bitLength_bounds [OF npos]
  have lo: "2 ^ (bitLength n - 1) \<le> n" and hi: "n < 2 ^ bitLength n" by simp_all
  have bl: "0 < bitLength n" using npos by (simp add: bitLength.simps [of n])
  have k: "k = int (bitLength n - 1)" using bl by (simp add: k_def)
  have "(2 :: rat) ^ (bitLength n - 1) \<le> a" using pow_le_rat [OF lo] na by linarith
  then have l: "pow2 k \<le> a" by (simp only: k pow2_of_nat)
  have "a < 2 ^ bitLength n" using lt_pow_rat [OF hi] an by linarith
  moreover have "k + 1 = int (bitLength n)" by (simp add: k_def)
  ultimately have h: "a < pow2 (k + 1)" by (simp only: pow2_of_nat)
  have "exponent a = k" using True h by (simp add: exponent_def k_def n_def Let_def)
  with l h show ?thesis by simp
next
  case False
  define b where "b = 1 / a"
  define n where "n = nat \<lfloor>b\<rfloor>"
  define k where "k = - int (bitLength n)"
  have b1: "1 < b" using False assms by (simp add: b_def)
  then have fl: "1 \<le> \<lfloor>b\<rfloor>" by simp
  then have npos: "0 < n" by (simp add: n_def)
  have nf: "(of_nat n :: rat) = of_int \<lfloor>b\<rfloor>" using fl by (simp add: n_def)
  have nb: "of_nat n \<le> b" and bn: "b < of_nat n + 1"
    unfolding nf by linarith+
  from bitLength_bounds [OF npos]
  have lo: "2 ^ (bitLength n - 1) \<le> n" and hi: "n < 2 ^ bitLength n" by simp_all
  have bh: "b < 2 ^ bitLength n" using lt_pow_rat [OF hi] bn by linarith
  have a: "a = 1 / b" using assms by (simp add: b_def)
  have bpos: "0 < b" using b1 by simp
  have "1 / 2 ^ bitLength n < 1 / b" using bh bpos by (simp add: frac_less2)
  then have l: "pow2 k < a" by (simp add: k_def pow2_neg_nat a)
  have h2: "a < pow2 (k + 2)"
  proof -
    have "(2 :: rat) ^ (bitLength n - 1) \<le> b" using pow_le_rat [OF lo] nb by linarith
    then have "1 / b \<le> 1 / (2 :: rat) ^ (bitLength n - 1)" by (simp add: frac_le)
    then have "a \<le> pow2 (- int (bitLength n - 1))" by (simp add: a pow2_neg_nat)
    moreover have bl: "0 < bitLength n" using npos by (simp add: bitLength.simps [of n])
    then have "- int (bitLength n - 1) = k + 1" by (simp add: k_def)
    ultimately have "a \<le> pow2 (k + 1)" by simp
    also have "\<dots> < pow2 (k + 1 + 1)"
      using pow2_pos [of "k + 1"] pow2_Suc [of "k + 1"] by linarith
    finally show ?thesis by (simp add: add.assoc)
  qed
  have ex: "exponent a = (if pow2 (k + 1) \<le> a then k + 1 else k)"
    using False by (simp add: exponent_def k_def n_def b_def Let_def)
  show ?thesis
  proof (cases "pow2 (k + 1) \<le> a")
    case True
    then show ?thesis using ex h2 by (simp add: add.assoc)
  next
    case False
    then show ?thesis using ex l by simp
  qed
qed

lemma pow2_power_int: "pow2 e = power_int 2 e"
  by (cases e rule: int_cases) (simp_all add: pow2_def power_int_def field_simps)

lemma pow2_add: "pow2 (i + j) = pow2 i * pow2 j"
  by (simp add: pow2_power_int power_int_add)

lemma roundHalfEven_near: "\<bar>of_int (roundHalfEven m) - m\<bar> \<le> 1 / 2"
proof -
  have "of_int \<lfloor>m\<rfloor> \<le> m" and "m < of_int \<lfloor>m\<rfloor> + 1" by linarith+
  then show ?thesis by (auto simp: roundHalfEven_def Let_def)
qed

lemma roundHalfEven_nonneg: "0 \<le> m \<Longrightarrow> 0 \<le> roundHalfEven m"
  by (auto simp: roundHalfEven_def Let_def)

lemma round_double_error: "\<bar>round_double x - x\<bar> \<le> \<bar>x\<bar> / 2 ^ 53"
proof (cases "x = 0")
  case True
  then show ?thesis by (simp add: round_double_def)
next
  case False
  define a where "a = \<bar>x\<bar>"
  define e where "e = exponent a - 52"
  define m where "m = a / pow2 e"
  define r where "r = roundHalfEven m"
  have apos: "0 < a" using False by (simp add: a_def)
  have pe: "0 < pow2 e" by (rule pow2_pos)
  have rd: "round_double x = sgn x * of_int r * pow2 e"
    using False by (simp add: round_double_def Let_def a_def e_def m_def r_def)
  have x: "x = sgn x * m * pow2 e"
    using pe by (simp add: m_def a_def sgn_mult_abs)
  have "round_double x - x = sgn x * ((of_int r - m) * pow2 e)"
    by (subst (2) x) (simp add: rd algebra_simps)
  then have "\<bar>round_double x - x\<bar> = \<bar>of_int r - m\<bar> * pow2 e"
    using False pe by (simp add: abs_mult abs_sgn_eq)
  also have "\<dots> \<le> 1 / 2 * pow2 e"
    using roundHalfEven_near [of m] pe unfolding r_def by (intro mult_right_mono) simp_all
  also have "\<dots> \<le> a / 2 ^ 53"
  proof -
    have "pow2 (e + 52) \<le> a" using exponent_bounds [OF apos] by (simp add: e_def)
    moreover have "pow2 52 = 2 ^ 52" unfolding pow2_def by simp
    then have "pow2 (e + 52) = pow2 e * 2 ^ 52" by (simp only: pow2_add)
    ultimately have "pow2 e * 2 ^ 52 \<le> a" by simp
    then show ?thesis by (simp add: field_simps)
  qed
  finally show ?thesis by (simp add: a_def)
qed

lemma round_double_sign: "(0 \<le> x \<longrightarrow> 0 \<le> round_double x) \<and> (x \<le> 0 \<longrightarrow> round_double x \<le> 0)"
proof (cases "x = 0")
  case True
  then show ?thesis by (simp add: round_double_def)
next
  case False
  define r where "r = roundHalfEven (\<bar>x\<bar> / pow2 (exponent \<bar>x\<bar> - 52))"
  have "0 \<le> r" unfolding r_def
    by (intro roundHalfEven_nonneg divide_nonneg_pos pow2_pos) simp
  then have p: "0 \<le> of_int r * pow2 (exponent \<bar>x\<bar> - 52)"
    using pow2_pos [of "exponent \<bar>x\<bar> - 52"] by simp
  have rd: "round_double x = sgn x * (of_int r * pow2 (exponent \<bar>x\<bar> - 52))"
    using False by (simp add: round_double_def Let_def r_def)
  show ?thesis
  proof (cases "0 < x")
    case True
    then show ?thesis using p rd by simp
  next
    case False
    with \<open>x \<noteq> 0\<close> have "x < 0" by simp
    then show ?thesis using p rd by simp
  qed
qed

subsection \<open>The count estimator\<close>

lemma clamp_cases:
  "lo \<le> hi \<Longrightarrow> clamp n lo hi = (if n < lo then lo else if hi < n then hi else n)"
  by (simp add: clamp_def min_def max_def)

lemma truncate_sgn:
  fixes q :: rat
  shows "(if q < 0 then \<lceil>q\<rceil> else \<lfloor>q\<rfloor>) = (if q < 0 then - 1 else 1) * \<lfloor>\<bar>q\<bar>\<rfloor>"
  by (simp add: ceiling_def)

text \<open>
  C6, as the code has it. For 1 to 8 decks and any sequence of seen cards, the estimate is
  the quotient (decks * 52 - length seen) / 52 as the division of doubles gives it, within
  one part in \<open>2 ^ 53\<close> of the exact quotient, and \<open>decksRemaining\<close> is the estimate
  clamped: 0.25 when the estimate is below 0.25, decks when it is above decks, the
  estimate itself otherwise. So it lies between 0.25 and decks; it is 0.25 when every
  card of the shoe has been seen; and the division of the true count is never by zero.
  With 2 decks and 50 cards seen it is the double next to 27/26, and with 6 decks and no
  card seen it is 6.
\<close>

theorem decksRemaining_clamped:
  assumes "1 \<le> decks" and "decks \<le> 8"
  shows "decksRemaining decks seen
           = (let est = fdiv (of_int (decks * 52 - int (length seen))) 52
              in if est < 1 / 4 then 1 / 4 else if of_int decks < est then of_int decks else est)
         \<and> \<bar>fdiv (of_int (decks * 52 - int (length seen))) 52
              - of_int (decks * 52 - int (length seen)) / 52\<bar>
             \<le> \<bar>of_int (decks * 52 - int (length seen)) / 52\<bar> / 2 ^ 53
         \<and> 1 / 4 \<le> decksRemaining decks seen
         \<and> decksRemaining decks seen \<le> of_int decks
         \<and> (int (length seen) = decks * 52 \<longrightarrow> decksRemaining decks seen = 1 / 4)
         \<and> trueCount rc (decksRemaining decks seen) \<noteq> None
         \<and> decksRemaining 2 (replicate 50 ''5'') = 4676814997653977 / 4503599627370496
         \<and> decksRemaining 6 [] = 6"
proof -
  define est where "est = fdiv (of_int (decks * 52 - int (length seen))) 52"
  have d: "(1 / 4 :: rat) \<le> of_int decks"
  proof -
    have "(1 :: rat) \<le> of_int decks" using assms(1) by simp
    then show ?thesis by simp
  qed
  have dr: "decksRemaining decks seen = clamp est (1 / 4) (of_int decks)"
    by (simp add: decksRemaining_def totalCards_def est_def)
  have eq: "decksRemaining decks seen
           = (let est = fdiv (of_int (decks * 52 - int (length seen))) 52
              in if est < 1 / 4 then 1 / 4 else if of_int decks < est then of_int decks else est)"
    unfolding dr clamp_cases [OF d] by (simp add: est_def Let_def)
  have err: "\<bar>fdiv (of_int (decks * 52 - int (length seen))) 52
              - of_int (decks * 52 - int (length seen)) / 52\<bar>
             \<le> \<bar>of_int (decks * 52 - int (length seen)) / 52\<bar> / 2 ^ 53"
    unfolding fdiv_def by (rule round_double_error)
  have b: "1 / 4 \<le> decksRemaining decks seen \<and> decksRemaining decks seen \<le> of_int decks"
    unfolding dr clamp_cases [OF d] using d by simp
  have e: "int (length seen) = decks * 52 \<longrightarrow> decksRemaining decks seen = 1 / 4"
    unfolding dr clamp_cases [OF d] by (simp add: est_def fdiv_def round_double_def)
  have "decksRemaining decks seen \<noteq> 0" using b by auto
  then have t: "trueCount rc (decksRemaining decks seen) \<noteq> None"
    by (simp add: trueCount_def Let_def)
  have v1: "decksRemaining 2 (replicate 50 ''5'') = 4676814997653977 / 4503599627370496"
    by code_simp
  have v2: "decksRemaining 6 [] = 6"
    by code_simp
  from eq err b e t v1 v2 show ?thesis by blast
qed

theorem decksRemaining_clamped_witness:
  "(1 :: int) \<le> 1 \<and> (1 :: int) \<le> 8
   \<and> int (length (replicate 52 ''5'')) = 1 * 52
   \<and> decksRemaining 1 (replicate 52 ''5'') = 1 / 4
   \<and> trueCount 52 (decksRemaining 1 (replicate 52 ''5'')) \<noteq> None"
proof -
  have a: "(1 :: int) \<le> 1" and b: "(1 :: int) \<le> 8" by simp_all
  have c: "int (length (replicate 52 ''5'')) = 1 * 52" by simp
  from a b c decksRemaining_clamped [OF a b, of "replicate 52 ''5''" 52]
  show ?thesis by blast
qed

text \<open>
  C6, as the claim has it, fails by the rounding of the division: with 2 decks and 50
  cards seen the clamp of the exact quotient is 27/26, which is no double, and
  \<open>decksRemaining\<close> is the double next to it.
\<close>

theorem decksRemaining_not_exact:
  "decksRemaining 2 (replicate 50 ''5'') = 4676814997653977 / 4503599627370496
   \<and> clamp (of_int (2 * 52 - int (length (replicate 50 ''5''))) / 52) (1 / 4) (of_int 2) = 27 / 26
   \<and> decksRemaining 2 (replicate 50 ''5'')
       \<noteq> clamp (of_int (2 * 52 - int (length (replicate 50 ''5''))) / 52) (1 / 4) (of_int 2)"
proof -
  have a: "decksRemaining 2 (replicate 50 ''5'') = 4676814997653977 / 4503599627370496"
    by code_simp
  have b: "clamp (of_int (2 * 52 - int (length (replicate 50 ''5''))) / 52) (1 / 4) (of_int 2)
             = 27 / 26"
    by (simp add: clamp_def)
  have c: "(4676814997653977 / 4503599627370496 :: rat) \<noteq> 27 / 26" by simp
  from a b c show ?thesis by simp
qed

text \<open>
  C5, as the code has it. For an integer running count and a positive \<open>decksRemaining\<close>,
  their quotient within the range of doubles, the true count is the quotient of the
  division of doubles truncated toward zero: its sign is that of the running count and
  its magnitude the floor of the magnitude of that quotient, which is the ceiling of a
  negative quotient and the floor of any other. The quotient of doubles is within one
  part in \<open>2 ^ 53\<close> of the exact quotient. A running count of -3 over 2 decks gives -1,
  and 7 over 2 decks gives 3; 10 over the double next to 10/13 gives 13.
\<close>

theorem trueCount_truncates:
  assumes "0 < dr" and "\<bar>of_int rc / dr\<bar> < 2 ^ 1023"
  shows "trueCount rc dr = Some (sgn rc * \<lfloor>\<bar>fdiv (of_int rc) dr\<bar>\<rfloor>)
         \<and> trueCount rc dr
             = Some (if fdiv (of_int rc) dr < 0 then \<lceil>fdiv (of_int rc) dr\<rceil>
                     else \<lfloor>fdiv (of_int rc) dr\<rfloor>)
         \<and> \<bar>fdiv (of_int rc) dr - of_int rc / dr\<bar> \<le> \<bar>of_int rc / dr\<bar> / 2 ^ 53
         \<and> trueCount (- 3) 2 = Some (- 1) \<and> trueCount 7 2 = Some 3
         \<and> trueCount 10 (6928614811339225 / 9007199254740992) = Some 13"
proof -
  define q where "q = fdiv (of_int rc) dr"
  have nz: "dr \<noteq> 0" using assms(1) by simp
  have second: "trueCount rc dr = Some (if q < 0 then \<lceil>q\<rceil> else \<lfloor>q\<rfloor>)"
    using nz by (simp add: trueCount_def Let_def q_def)
  have sign: "(0 \<le> of_int rc / dr \<longrightarrow> 0 \<le> q) \<and> (of_int rc / dr \<le> 0 \<longrightarrow> q \<le> 0)"
    unfolding q_def fdiv_def by (rule round_double_sign)
  have first: "trueCount rc dr = Some (sgn rc * \<lfloor>\<bar>q\<bar>\<rfloor>)"
  proof (cases "rc < 0")
    case True
    then have "(of_int rc :: rat) / dr \<le> 0" using assms(1) by (simp add: divide_le_0_iff)
    with sign have q0: "q \<le> 0" by simp
    show ?thesis
    proof (cases "q = 0")
      case True
      then show ?thesis using second by simp
    next
      case False
      with q0 have "q < 0" by simp
      then show ?thesis using second True truncate_sgn [of q] by simp
    qed
  next
    case False
    then have "0 \<le> (of_int rc :: rat) / dr" using assms(1) by simp
    with sign have q0: "0 \<le> q" by simp
    show ?thesis
    proof (cases "rc = 0")
      case True
      then have "q = 0" by (simp add: q_def fdiv_def round_double_def)
      then show ?thesis using second by simp
    next
      case False
      with \<open>\<not> rc < 0\<close> have "0 < rc" by simp
      then show ?thesis using second q0 by simp
    qed
  qed
  have err: "\<bar>q - of_int rc / dr\<bar> \<le> \<bar>of_int rc / dr\<bar> / 2 ^ 53"
    unfolding q_def fdiv_def by (rule round_double_error)
  have v1: "trueCount (- 3) 2 = Some (- 1)" by code_simp
  have v2: "trueCount 7 2 = Some 3" by code_simp
  have v3: "trueCount 10 (6928614811339225 / 9007199254740992) = Some 13" by code_simp
  from first second err v1 v2 v3 show ?thesis unfolding q_def by blast
qed

theorem trueCount_truncates_witness:
  "(0 :: rat) < 3 / 2 \<and> \<bar>of_int (- 7) / (3 / 2 :: rat)\<bar> < 2 ^ 1023
   \<and> trueCount (- 7) (3 / 2) = Some (- 4)"
proof -
  have p: "(0 :: rat) < 3 / 2" by simp
  have r: "\<bar>of_int (- 7) / (3 / 2 :: rat)\<bar> < 2 ^ 1023" by simp
  have f: "\<lfloor>\<bar>fdiv (of_int (- 7)) (3 / 2)\<bar>\<rfloor> = 4" by code_simp
  from p r f trueCount_truncates [OF p r] show ?thesis by simp
qed

text \<open>
  C5, as the claim has it, fails by the rounding of the division. With one deck and twelve
  cards seen, eleven fives and a king, the running count is 10 and \<open>decksRemaining\<close> is
  the double next to 10/13; the exact quotient of the two is just below 13 and truncates
  to 12, the division of doubles rounds it to 13, and the true count is 13.
\<close>

theorem trueCount_not_exact:
  "runningCount (replicate 11 ''5'' @ [''K'']) = 10
   \<and> decksRemaining 1 (replicate 11 ''5'' @ [''K'']) = 6928614811339225 / 9007199254740992
   \<and> (0 :: rat) < 6928614811339225 / 9007199254740992
   \<and> trueCount 10 (6928614811339225 / 9007199254740992) = Some 13
   \<and> \<lfloor>(10 :: rat) / (6928614811339225 / 9007199254740992)\<rfloor> = 12"
proof -
  have a: "runningCount (replicate 11 ''5'' @ [''K'']) = 10" by code_simp
  have b: "decksRemaining 1 (replicate 11 ''5'' @ [''K'']) = 6928614811339225 / 9007199254740992"
    by code_simp
  have c: "trueCount 10 (6928614811339225 / 9007199254740992) = Some 13" by code_simp
  have d: "\<lfloor>(10 :: rat) / (6928614811339225 / 9007199254740992)\<rfloor> = 12" by code_simp
  from a b c d show ?thesis by simp
qed

text \<open>
  The two roundings together: with 2 decks and 50 cards seen, a running count of 27 over
  the exact 27/26 decks is 26, and the estimator returns 25.
\<close>

lemma trueCount_two_decks_fifty_seen:
  "trueCount 27 (decksRemaining 2 (replicate 50 ''5'')) = Some 25"
  by code_simp

end
